theory Spec2Isabelle
  imports Main
begin

section \<open>Data model\<close>

text \<open>
  The module \<^verbatim>\<open>book_search_api.py\<close> has two independent parts: the ISBN converter
  (\<^verbatim>\<open>only_number\<close>, \<^verbatim>\<open>isbn10_to_isbn13\<close>, \<^verbatim>\<open>isbn13_to_isbn10\<close>, \<^verbatim>\<open>calc_both_isbn\<close>)
  and four provider clients with an \<^verbatim>\<open>isbn_search\<close> method each.

  Python strings are modelled as \<^typ>\<open>string\<close>; a \<^typ>\<open>char\<close> stands for a code point
  below 256. On that range \<^verbatim>\<open>str.isdecimal\<close> holds exactly for the ten characters
  \<^verbatim>\<open>0\<close> to \<^verbatim>\<open>9\<close>, and \<^verbatim>\<open>int(c)\<close> of a one-character string succeeds exactly for them.
  Python integers are unbounded, hence \<^typ>\<open>int\<close>.

  Every \<^verbatim>\<open>raise\<close> of the source is a value of the type \<open>error\<close>:
  \<^item> \<open>InvalidFormat\<close>: the \<^verbatim>\<open>ValueError\<close> raised by the length and prefix checks
    (\<^verbatim>\<open>isbn10_to_isbn13\<close>, \<^verbatim>\<open>isbn13_to_isbn10\<close> and the last branch of \<^verbatim>\<open>calc_both_isbn\<close>);
  \<^item> \<open>InvalidArgument\<close>: the \<^verbatim>\<open>ValueError\<close> raised by \<^verbatim>\<open>calc_both_isbn\<close> for an
    argument that is neither \<^verbatim>\<open>int\<close> nor \<^verbatim>\<open>str\<close>;
  \<^item> \<open>IndexError\<close>: raised by \<^verbatim>\<open>number[-1]\<close> on the empty string;
  \<^item> \<open>IntLiteralError\<close>: the \<^verbatim>\<open>ValueError\<close> that \<^verbatim>\<open>int(digit)\<close> raises on a character
    that is not a decimal digit.
\<close>

datatype error = InvalidFormat | InvalidArgument | IndexError | IntLiteralError

text \<open>The arguments \<^verbatim>\<open>calc_both_isbn\<close> tells apart with \<^verbatim>\<open>isinstance\<close>. In Python
  \<^verbatim>\<open>bool\<close> is a subclass of \<^verbatim>\<open>int\<close>, so \<^verbatim>\<open>isinstance(True, int)\<close> holds; \<open>PyOther\<close>
  stands for every value that is neither \<^verbatim>\<open>int\<close> nor \<^verbatim>\<open>str\<close> (None, a float, a list).\<close>

datatype py_value = PyStr string | PyInt int | PyBool bool | PyOther

section \<open>Python primitives used by the converter\<close>

definition isdecimal :: "char \<Rightarrow> bool" where
  "isdecimal c = (c \<in> set ''0123456789'')"

text \<open>The value of a decimal digit character: its code point minus that of \<^verbatim>\<open>0\<close>.\<close>

definition digit_val :: "char \<Rightarrow> int" where
  "digit_val c = int (of_char c) - 48"

text \<open>\<^verbatim>\<open>int(digit)\<close> for a one-character string.\<close>

definition py_int :: "char \<Rightarrow> error + int" where
  "py_int c = (if isdecimal c then Inr (digit_val c) else Inl IntLiteralError)"

definition digit_chr :: "nat \<Rightarrow> char" where
  "digit_chr d = ''0123456789'' ! d"

text \<open>\<^verbatim>\<open>str(n)\<close> for an integer: decimal digits, most significant first, with a minus
  sign for a negative number.\<close>

fun str_nat :: "nat \<Rightarrow> string" where
  "str_nat n = (if n < 10 then [digit_chr n] else str_nat (n div 10) @ [digit_chr (n mod 10)])"

declare str_nat.simps [simp del]

definition str_int :: "int \<Rightarrow> string" where
  "str_int i = (if i < 0 then CHR ''-'' # str_nat (nat (- i)) else str_nat (nat i))"

text \<open>\<^verbatim>\<open>str(b)\<close> for a bool.\<close>

definition str_bool :: "bool \<Rightarrow> string" where
  "str_bool b = (if b then ''True'' else ''False'')"

section \<open>The ISBN converter\<close>

text \<open>
  \<^verbatim>\<open>only_number\<close>: \<^verbatim>\<open>number[-1]\<close> raises on the empty string; \<^verbatim>\<open>number[:-1]\<close> is
  \<^const>\<open>butlast\<close>; \<^verbatim>\<open>''.join(filter(str.isdecimal, number)) + last\<close>.
\<close>

definition only_number :: "string \<Rightarrow> error + string" where
  "only_number number =
     (if number = [] then Inl IndexError
      else if last number = CHR ''X''
        then Inr (filter isdecimal (butlast number) @ ''X'')
        else Inr (filter isdecimal number @ ''''))"

text \<open>
  The loop of \<^verbatim>\<open>isbn10_to_isbn13\<close>:
  \<^verbatim>\<open>for i, digit in enumerate(isbn13_body): check_digit += int(digit) * (1 if i % 2 == 0 else 3)\<close>.
  The first argument is the index \<open>i\<close>, the last the running value of \<^verbatim>\<open>check_digit\<close>.
\<close>

fun isbn13_sum :: "nat \<Rightarrow> string \<Rightarrow> int \<Rightarrow> error + int" where
  "isbn13_sum i [] check_digit = Inr check_digit"
| "isbn13_sum i (digit # rest) check_digit =
     (case py_int digit of
        Inl e \<Rightarrow> Inl e
      | Inr d \<Rightarrow> isbn13_sum (Suc i) rest (check_digit + d * (if i mod 2 = 0 then 1 else 3)))"

text \<open>The argument is annotated \<^verbatim>\<open>str\<close>, and \<^verbatim>\<open>str(isbn10)\<close> of a string is the string.\<close>

definition isbn10_to_isbn13 :: "string \<Rightarrow> error + string" where
  "isbn10_to_isbn13 arg =
     (case only_number arg of
        Inl e \<Rightarrow> Inl e
      | Inr isbn10 \<Rightarrow>
          if length isbn10 \<noteq> 10 then Inl InvalidFormat
          else
            let isbn13_body = ''978'' @ butlast isbn10 in
            (case isbn13_sum 0 isbn13_body 0 of
               Inl e \<Rightarrow> Inl e
             | Inr s \<Rightarrow> Inr (isbn13_body @ str_int ((10 - (s mod 10)) mod 10))))"

text \<open>
  The loop of \<^verbatim>\<open>isbn13_to_isbn10\<close>:
  \<^verbatim>\<open>for i, digit in enumerate(isbn10_body): check_digit += int(digit) * (10 - i)\<close>.
\<close>

fun isbn10_sum :: "nat \<Rightarrow> string \<Rightarrow> int \<Rightarrow> error + int" where
  "isbn10_sum i [] check_digit = Inr check_digit"
| "isbn10_sum i (digit # rest) check_digit =
     (case py_int digit of
        Inl e \<Rightarrow> Inl e
      | Inr d \<Rightarrow> isbn10_sum (Suc i) rest (check_digit + d * (10 - int i)))"

text \<open>\<^verbatim>\<open>isbn13[3:-1]\<close> is \<open>drop 3 (butlast isbn13)\<close>; \<^verbatim>\<open>startswith("978")\<close> compares the
  first three characters. A check digit of 10 is replaced by the string \<^verbatim>\<open>X\<close> before
  \<^verbatim>\<open>str\<close> is applied.\<close>

definition isbn13_to_isbn10 :: "string \<Rightarrow> error + string" where
  "isbn13_to_isbn10 arg =
     (case only_number arg of
        Inl e \<Rightarrow> Inl e
      | Inr isbn13 \<Rightarrow>
          if length isbn13 \<noteq> 13 \<or> take 3 isbn13 \<noteq> ''978'' then Inl InvalidFormat
          else
            let isbn10_body = drop 3 (butlast isbn13) in
            (case isbn10_sum 0 isbn10_body 0 of
               Inl e \<Rightarrow> Inl e
             | Inr s \<Rightarrow>
                 let check_digit = (11 - (s mod 11)) mod 11 in
                 Inr (isbn10_body @ (if check_digit = 10 then ''X'' else str_int check_digit))))"

text \<open>\<^verbatim>\<open>calc_both_isbn\<close>: the \<^verbatim>\<open>isinstance\<close> dispatch, then the normalisation and the
  branch on the normalised length. Each converter normalises its argument again.\<close>

definition coerce :: "py_value \<Rightarrow> error + string" where
  "coerce isbn =
     (case isbn of
        PyInt i \<Rightarrow> Inr (str_int i)
      | PyBool b \<Rightarrow> Inr (str_bool b)
      | PyStr s \<Rightarrow> Inr s
      | PyOther \<Rightarrow> Inl InvalidArgument)"

definition calc_both_isbn :: "py_value \<Rightarrow> error + (string \<times> string)" where
  "calc_both_isbn isbn =
     (case coerce isbn of
        Inl e \<Rightarrow> Inl e
      | Inr s \<Rightarrow>
          (case only_number s of
             Inl e \<Rightarrow> Inl e
           | Inr isbn_number \<Rightarrow>
               if length isbn_number = 10 then
                 (case isbn10_to_isbn13 isbn_number of
                    Inl e \<Rightarrow> Inl e
                  | Inr isbn13 \<Rightarrow> Inr (isbn_number, isbn13))
               else if length isbn_number = 13 then
                 (case isbn13_to_isbn10 isbn_number of
                    Inl e \<Rightarrow> Inl e
                  | Inr isbn10 \<Rightarrow> Inr (isbn10, isbn_number))
               else Inl InvalidFormat))"

section \<open>The provider clients\<close>

text \<open>
  Each client object holds a base URL, a timeout and a verbosity flag. The call
  \<^verbatim>\<open>requests.get(url, params=..., timeout=...)\<close> either raises or returns a response, of
  which the methods read \<^verbatim>\<open>status_code\<close> and the body. The HTTP layer is a parameter
  \<open>requests_get\<close> of every method: a function from the request to what the call does.
  The exceptions are told apart as the \<^verbatim>\<open>except\<close> clauses do: \<^verbatim>\<open>Timeout\<close>,
  \<^verbatim>\<open>ConnectionError\<close>, and anything else (the bare \<^verbatim>\<open>except\<close>).

  The parsers \<^verbatim>\<open>response.json()\<close> and \<^verbatim>\<open>xmltodict.parse(response.text)\<close> are parameters too,
  functions from the body to a parsed document or to the exception they raise on a body
  that is not well formed. They are called after the \<^verbatim>\<open>try\<close> statement has been left.

  A method returns \<open>Inr None\<close> for \<^verbatim>\<open>None\<close>, \<open>Inr (Some doc)\<close> for a document and \<open>Inl x\<close>
  when the exception \<open>x\<close> leaves the method; the second component of the result lists
  the requests the method has issued. The calls of the logger (made when \<^verbatim>\<open>verbose\<close> is
  set) do not change what is returned and are left out.
\<close>

datatype transport_error = Timeout | ConnectionError | OtherException

record response =
  status_code :: int
  body_text :: string

record request =
  url :: string
  params :: "(string \<times> string) list"
  request_timeout :: int

record client =
  base_url :: string
  timeout :: int
  verbose :: bool

type_synonym http_layer = "request \<Rightarrow> transport_error + response"

definition OpenLibraryAPI :: "int \<Rightarrow> bool \<Rightarrow> client" where
  "OpenLibraryAPI t v = \<lparr>base_url = ''https://openlibrary.org'', timeout = t, verbose = v\<rparr>"

definition GoogleBooksAPI :: "int \<Rightarrow> bool \<Rightarrow> client" where
  "GoogleBooksAPI t v = \<lparr>base_url = ''https://www.googleapis.com/books/v1'', timeout = t, verbose = v\<rparr>"

definition NDLAPI :: "int \<Rightarrow> bool \<Rightarrow> client" where
  "NDLAPI t v = \<lparr>base_url = ''https://iss.ndl.go.jp/api/sru'', timeout = t, verbose = v\<rparr>"

definition OpenBDAPI :: "int \<Rightarrow> bool \<Rightarrow> client" where
  "OpenBDAPI t v = \<lparr>base_url = ''https://api.openbd.jp/v1'', timeout = t, verbose = v\<rparr>"

text \<open>The request each \<^verbatim>\<open>isbn_search\<close> builds from \<^verbatim>\<open>self\<close> and \<^verbatim>\<open>isbn\<close>.\<close>

definition OpenLibraryAPI_request :: "client \<Rightarrow> string \<Rightarrow> request" where
  "OpenLibraryAPI_request self isbn =
     \<lparr>url = base_url self @ ''/isbn/'' @ isbn @ ''.json'', params = [],
      request_timeout = timeout self\<rparr>"

definition GoogleBooksAPI_request :: "client \<Rightarrow> string \<Rightarrow> request" where
  "GoogleBooksAPI_request self isbn =
     \<lparr>url = base_url self @ ''/volumes?q=isbn:'' @ isbn, params = [],
      request_timeout = timeout self\<rparr>"

definition NDLAPI_request :: "client \<Rightarrow> string \<Rightarrow> request" where
  "NDLAPI_request self isbn =
     \<lparr>url = base_url self,
      params = [(''operation'', ''searchRetrieve''),
                (''query'', ''isbn='' @ [CHR 0x22] @ isbn @ [CHR 0x22]),
                (''recordPacking'', ''xml'')],
      request_timeout = timeout self\<rparr>"

definition OpenBDAPI_request :: "client \<Rightarrow> string \<Rightarrow> request" where
  "OpenBDAPI_request self isbn =
     \<lparr>url = base_url self @ ''/get'', params = [(''isbn'', isbn)],
      request_timeout = timeout self\<rparr>"

definition OpenLibraryAPI_isbn_search ::
  "client \<Rightarrow> http_layer \<Rightarrow> (string \<Rightarrow> 'x + 'd) \<Rightarrow> string \<Rightarrow> ('x + 'd option) \<times> request list" where
  "OpenLibraryAPI_isbn_search self requests_get json isbn =
     (let req = OpenLibraryAPI_request self isbn in
      case requests_get req of
        Inl Timeout \<Rightarrow> (Inr None, [req])
      | Inl ConnectionError \<Rightarrow> (Inr None, [req])
      | Inl OtherException \<Rightarrow> (Inr None, [req])
      | Inr response \<Rightarrow>
          if status_code response = 200 then
            (case json (body_text response) of
               Inl x \<Rightarrow> (Inl x, [req])
             | Inr doc \<Rightarrow> (Inr (Some doc), [req]))
          else (Inr None, [req]))"

definition GoogleBooksAPI_isbn_search ::
  "client \<Rightarrow> http_layer \<Rightarrow> (string \<Rightarrow> 'x + 'd) \<Rightarrow> string \<Rightarrow> ('x + 'd option) \<times> request list" where
  "GoogleBooksAPI_isbn_search self requests_get json isbn =
     (let req = GoogleBooksAPI_request self isbn in
      case requests_get req of
        Inl Timeout \<Rightarrow> (Inr None, [req])
      | Inl ConnectionError \<Rightarrow> (Inr None, [req])
      | Inl OtherException \<Rightarrow> (Inr None, [req])
      | Inr response \<Rightarrow>
          if status_code response = 200 then
            (case json (body_text response) of
               Inl x \<Rightarrow> (Inl x, [req])
             | Inr doc \<Rightarrow> (Inr (Some doc), [req]))
          else (Inr None, [req]))"

definition NDLAPI_isbn_search ::
  "client \<Rightarrow> http_layer \<Rightarrow> (string \<Rightarrow> 'x + 'd) \<Rightarrow> string \<Rightarrow> ('x + 'd option) \<times> request list" where
  "NDLAPI_isbn_search self requests_get xmltodict_parse isbn =
     (let req = NDLAPI_request self isbn in
      case requests_get req of
        Inl Timeout \<Rightarrow> (Inr None, [req])
      | Inl ConnectionError \<Rightarrow> (Inr None, [req])
      | Inl OtherException \<Rightarrow> (Inr None, [req])
      | Inr response \<Rightarrow>
          if status_code response = 200 then
            (case xmltodict_parse (body_text response) of
               Inl x \<Rightarrow> (Inl x, [req])
             | Inr doc \<Rightarrow> (Inr (Some doc), [req]))
          else (Inr None, [req]))"

definition OpenBDAPI_isbn_search ::
  "client \<Rightarrow> http_layer \<Rightarrow> (string \<Rightarrow> 'x + 'd) \<Rightarrow> string \<Rightarrow> ('x + 'd option) \<times> request list" where
  "OpenBDAPI_isbn_search self requests_get json isbn =
     (let req = OpenBDAPI_request self isbn in
      case requests_get req of
        Inl Timeout \<Rightarrow> (Inr None, [req])
      | Inl ConnectionError \<Rightarrow> (Inr None, [req])
      | Inl OtherException \<Rightarrow> (Inr None, [req])
      | Inr response \<Rightarrow>
          if status_code response = 200 then
            (case json (body_text response) of
               Inl x \<Rightarrow> (Inl x, [req])
             | Inr doc \<Rightarrow> (Inr (Some doc), [req]))
          else (Inr None, [req]))"

section \<open>Notions used to state the properties\<close>

text \<open>The weighted digit sums of the two check-digit schemes, written over the positions
  of a body: weight 1 at even and 3 at odd positions (ISBN-13), weight \<open>10 - i\<close> at
  position \<open>i\<close> (ISBN-10).\<close>

definition isbn13_weighted :: "string \<Rightarrow> int" where
  "isbn13_weighted body =
     sum_list (map (\<lambda>i. digit_val (body ! i) * (if even i then 1 else 3)) [0..<length body])"

definition isbn10_weighted :: "string \<Rightarrow> int" where
  "isbn10_weighted body =
     sum_list (map (\<lambda>i. digit_val (body ! i) * (10 - int i)) [0..<length body])"

text \<open>The expression \<^verbatim>\<open>only_number(only_number(s))\<close>: the inner call's exception, if any,
  is the exception of the whole expression.\<close>

definition only_number_twice :: "string \<Rightarrow> error + string" where
  "only_number_twice s = (case only_number s of Inl e \<Rightarrow> Inl e | Inr n \<Rightarrow> only_number n)"

text \<open>A valid ISBN-10, as the data model has it: 10 characters, the first nine decimal
  digits, the last a decimal digit or \<^verbatim>\<open>X\<close> (standing for 10), and the sum of the ten
  values weighted by 10 down to 1 divisible by 11 (the modulo-11 check).\<close>

definition isbn10_check_val :: "char \<Rightarrow> int" where
  "isbn10_check_val c = (if c = CHR ''X'' then 10 else digit_val c)"

definition valid_isbn10 :: "string \<Rightarrow> bool" where
  "valid_isbn10 x \<longleftrightarrow>
     length x = 10 \<and> list_all isdecimal (take 9 x)
     \<and> (isdecimal (x ! 9) \<or> x ! 9 = CHR ''X'')
     \<and> sum_list (map (\<lambda>i. isbn10_check_val (x ! i) * (10 - int i)) [0..<length x]) mod 11 = 0"

text \<open>The expression \<^verbatim>\<open>isbn13_to_isbn10(isbn10_to_isbn13(x))\<close>.\<close>

definition isbn10_roundtrip :: "string \<Rightarrow> error + string" where
  "isbn10_roundtrip x =
     (case isbn10_to_isbn13 x of Inl e \<Rightarrow> Inl e | Inr isbn13 \<Rightarrow> isbn13_to_isbn10 isbn13)"

text \<open>Reading a decimal numeral back: the digits are taken most significant first, and
  a leading minus sign negates. This is the inverse the string form of an integer has to
  have to be its decimal form.\<close>

definition nat_of_digits :: "string \<Rightarrow> nat" where
  "nat_of_digits ds = foldl (\<lambda>a c. 10 * a + nat (digit_val c)) 0 ds"

definition int_of_decimal :: "string \<Rightarrow> int" where
  "int_of_decimal s =
     (case s of
        [] \<Rightarrow> 0
      | c # ds \<Rightarrow> if c = CHR ''-'' then - int (nat_of_digits ds) else int (nat_of_digits s))"

text \<open>What a lookup owes its caller, given what the HTTP layer did with the request:
  \<^verbatim>\<open>None\<close> after an exception of the request, \<^verbatim>\<open>None\<close> for a status other than 200, and
  for status 200 the parsed body, or the parser's exception when the body does not
  parse.\<close>

definition lookup_contract ::
  "transport_error + response \<Rightarrow> (string \<Rightarrow> 'x + 'd) \<Rightarrow> ('x + 'd option) \<Rightarrow> bool" where
  "lookup_contract outcome parse result =
     (case outcome of
        Inl e \<Rightarrow> result = Inr None
      | Inr r \<Rightarrow>
          if status_code r \<noteq> 200 then result = Inr None
          else (case parse (body_text r) of
                  Inr doc \<Rightarrow> result = Inr (Some doc)
                | Inl x \<Rightarrow> result = Inl x))"

text \<open>Instances of the two parameters for concrete evaluation: an HTTP layer that answers
  every request with status 200 and an empty body, one that answers with status 404, one
  that times out, and a parser that, like \<^verbatim>\<open>response.json()\<close> and \<^verbatim>\<open>xmltodict.parse\<close>, raises on
  the empty body (on any other body it returns the text as the document).\<close>

datatype parse_error = MalformedBody

definition http_200_empty :: http_layer where
  "http_200_empty req = Inr \<lparr>status_code = 200, body_text = ''''\<rparr>"

definition http_200_braces :: http_layer where
  "http_200_braces req = Inr \<lparr>status_code = 200, body_text = ''{}''\<rparr>"

definition http_404 :: http_layer where
  "http_404 req = Inr \<lparr>status_code = 404, body_text = ''Not Found''\<rparr>"

definition http_timeout :: http_layer where
  "http_timeout req = Inl Timeout"

definition parse_nonempty :: "string \<Rightarrow> parse_error + string" where
  "parse_nonempty body = (if body = [] then Inl MalformedBody else Inr body)"

section \<open>Decimal digits\<close>

lemma isdecimal_cases:
  "isdecimal c \<longleftrightarrow> c = CHR ''0'' \<or> c = CHR ''1'' \<or> c = CHR ''2'' \<or> c = CHR ''3'' \<or> c = CHR ''4''
     \<or> c = CHR ''5'' \<or> c = CHR ''6'' \<or> c = CHR ''7'' \<or> c = CHR ''8'' \<or> c = CHR ''9''"
  by (simp add: isdecimal_def)

lemma not_isdecimal_X [simp]: "\<not> isdecimal CHR ''X''"
  by (simp add: isdecimal_def)

lemma digit_val_range: "isdecimal c \<Longrightarrow> 0 \<le> digit_val c \<and> digit_val c \<le> 9"
  by (auto simp: isdecimal_cases digit_val_def)

lemma digit_chr_digit_val: "isdecimal c \<Longrightarrow> digit_chr (nat (digit_val c)) = c"
  by (auto simp: isdecimal_cases digit_val_def digit_chr_def)

lemma nat_lt_10_cases:
  "(d::nat) < 10 \<Longrightarrow> d = 0 \<or> d = 1 \<or> d = 2 \<or> d = 3 \<or> d = 4 \<or> d = 5 \<or> d = 6 \<or> d = 7 \<or> d = 8 \<or> d = 9"
  by arith

lemma isdecimal_digit_chr: "d < 10 \<Longrightarrow> isdecimal (digit_chr d)"
  using nat_lt_10_cases [of d] by (auto simp: isdecimal_def digit_chr_def)

lemma digit_val_digit_chr: "d < 10 \<Longrightarrow> digit_val (digit_chr d) = int d"
  using nat_lt_10_cases [of d] by (auto simp: digit_val_def digit_chr_def)

lemma str_int_digit: "0 \<le> d \<Longrightarrow> d \<le> 9 \<Longrightarrow> str_int d = [digit_chr (nat d)]"
  by (simp add: str_int_def str_nat.simps)


lemma only_number_butlast_decimal:
  assumes "only_number s = Inr n"
  shows "\<forall>c \<in> set (butlast n). isdecimal c"
proof (cases "last s = CHR ''X''")
  case True
  with assms have "n = filter isdecimal (butlast s) @ ''X''"
    by (auto simp: only_number_def split: if_splits)
  then show ?thesis by simp
next
  case False
  with assms have "n = filter isdecimal s"
    by (auto simp: only_number_def split: if_splits)
  then show ?thesis by (auto dest: in_set_butlastD)
qed

lemma only_number_last:
  assumes "only_number s = Inr n" and "n \<noteq> []"
  shows "last n = CHR ''X'' \<or> isdecimal (last n)"
proof (cases "last s = CHR ''X''")
  case True
  with assms have "n = filter isdecimal (butlast s) @ ''X''"
    by (auto simp: only_number_def split: if_splits)
  then show ?thesis by simp
next
  case False
  with assms have n: "n = filter isdecimal s"
    by (auto simp: only_number_def split: if_splits)
  from assms(2) have "last n \<in> set n" by simp
  with n show ?thesis by auto
qed

lemma only_number_fixed:
  assumes "n \<noteq> []" and "\<forall>c \<in> set (butlast n). isdecimal c"
    and "last n = CHR ''X'' \<or> isdecimal (last n)"
  shows "only_number n = Inr n"
proof (cases "last n = CHR ''X''")
  case True
  from assms(2) have "filter isdecimal (butlast n) = butlast n" by simp
  with True assms(1) show ?thesis
    by (simp add: only_number_def) (metis append_butlast_last_id)
next
  case False
  with assms(3) have "isdecimal (last n)" by simp
  with assms(1,2) have "\<forall>c \<in> set n. isdecimal c"
    by (metis append_butlast_last_id Un_iff empty_iff empty_set insert_iff list.simps(15) set_append)
  then have "filter isdecimal n = n" by simp
  with False assms(1) show ?thesis by (simp add: only_number_def)
qed

lemma only_number_idem:
  assumes "only_number s = Inr n" and "n \<noteq> []"
  shows "only_number n = Inr n"
  using only_number_fixed [OF assms(2) only_number_butlast_decimal [OF assms(1)] only_number_last [OF assms]] .

lemma isbn13_sum_decimal:
  "\<forall>c \<in> set ds. isdecimal c \<Longrightarrow>
   isbn13_sum i ds acc =
     Inr (acc + sum_list (map (\<lambda>k. digit_val (ds ! k) * (if even (i + k) then 1 else 3)) [0..<length ds]))"
proof (induction ds arbitrary: i acc)
  case Nil
  then show ?case by simp
next
  case (Cons d ds)
  have upt: "[0..<Suc (length ds)] = 0 # map Suc [0..<length ds]"
    by (simp add: upt_conv_Cons map_Suc_upt del: upt_Suc)
  from Cons.prems have d: "py_int d = Inr (digit_val d)" and ds: "\<forall>c \<in> set ds. isdecimal c"
    by (simp_all add: py_int_def)
  show ?case
    using Cons.IH [OF ds, of "Suc i"] d
    by (simp add: upt comp_def even_iff_mod_2_eq_zero del: upt_Suc)
qed

lemma isbn10_sum_decimal:
  "\<forall>c \<in> set ds. isdecimal c \<Longrightarrow>
   isbn10_sum i ds acc =
     Inr (acc + sum_list (map (\<lambda>k. digit_val (ds ! k) * (10 - int (i + k))) [0..<length ds]))"
proof (induction ds arbitrary: i acc)
  case Nil
  then show ?case by simp
next
  case (Cons d ds)
  have upt: "[0..<Suc (length ds)] = 0 # map Suc [0..<length ds]"
    by (simp add: upt_conv_Cons map_Suc_upt del: upt_Suc)
  from Cons.prems have d: "py_int d = Inr (digit_val d)" and ds: "\<forall>c \<in> set ds. isdecimal c"
    by (simp_all add: py_int_def)
  show ?case
    using Cons.IH [OF ds, of "Suc i"] d
    by (simp add: upt comp_def del: upt_Suc)
qed

lemma isbn13_sum_weighted:
  "\<forall>c \<in> set ds. isdecimal c \<Longrightarrow> isbn13_sum 0 ds 0 = Inr (isbn13_weighted ds)"
  by (simp add: isbn13_sum_decimal isbn13_weighted_def)

lemma isbn10_sum_weighted:
  "\<forall>c \<in> set ds. isdecimal c \<Longrightarrow> isbn10_sum 0 ds 0 = Inr (isbn10_weighted ds)"
  by (simp add: isbn10_sum_decimal isbn10_weighted_def)

section \<open>The converters on normalised input\<close>

lemma isbn13_weighted_mod: "0 \<le> (10 - x mod 10) mod (10::int) \<and> (10 - x mod 10) mod (10::int) \<le> 9"
  using pos_mod_bound [of 10 "10 - x mod 10"] by simp

lemma isbn10_to_isbn13_normal:
  assumes "only_number s = Inr n" and "length n = 10"
  shows "isbn10_to_isbn13 s =
     Inr (''978'' @ take 9 n @
          [digit_chr (nat ((10 - isbn13_weighted (''978'' @ take 9 n) mod 10) mod 10))])"
proof -
  from assms(2) have bl: "butlast n = take 9 n" by (simp add: butlast_conv_take)
  have dec: "\<forall>c \<in> set (''978'' @ take 9 n). isdecimal c"
    using only_number_butlast_decimal [OF assms(1)] bl by (auto simp: isdecimal_def)
  show ?thesis
    using assms isbn13_sum_weighted [OF dec] isbn13_weighted_mod [of "isbn13_weighted (''978'' @ take 9 n)"]
    by (simp add: isbn10_to_isbn13_def bl str_int_digit)
qed

lemma isbn10_check_range: "0 \<le> (11 - x mod 11) mod (11::int) \<and> (11 - x mod 11) mod (11::int) \<le> 10"
  using pos_mod_bound [of 11 "11 - x mod 11"] by simp

lemma isbn13_to_isbn10_normal:
  assumes "only_number s = Inr n" and "length n = 13" and "take 3 n = ''978''"
  shows "isbn13_to_isbn10 s =
     Inr (take 9 (drop 3 n) @
          (if (11 - isbn10_weighted (take 9 (drop 3 n)) mod 11) mod 11 = 10 then ''X''
           else [digit_chr (nat ((11 - isbn10_weighted (take 9 (drop 3 n)) mod 11) mod 11))]))"
proof -
  let ?body = "take 9 (drop 3 n)"
  let ?check = "(11 - isbn10_weighted ?body mod 11) mod 11"
  from assms(2) have bl: "drop 3 (butlast n) = ?body"
    by (simp add: butlast_conv_take drop_take)
  have "set (drop 3 (butlast n)) \<subseteq> set (butlast n)" by (rule set_drop_subset)
  with only_number_butlast_decimal [OF assms(1)] bl
  have dec: "\<forall>c \<in> set ?body. isdecimal c" by auto
  have rng: "0 \<le> ?check \<and> ?check \<le> 10" by (rule isbn10_check_range)
  have str: "?check \<noteq> 10 \<Longrightarrow> str_int ?check = [digit_chr (nat ?check)]"
    using rng by (intro str_int_digit) auto
  show ?thesis
    using assms isbn10_sum_weighted [OF dec] str
    by (simp add: isbn13_to_isbn10_def bl Let_def)
qed

lemma map_nth_upt_take_drop:
  "j \<le> length xs \<Longrightarrow> map ((!) xs) [i..<j] = take (j - i) (drop i xs)"
  by (rule nth_equalityI) (auto simp: min_def)

lemma positions_3_to_11:
  assumes "length n = 13"
  shows "map ((!) n) [3..<12] = take 9 (drop 3 n)"
  using map_nth_upt_take_drop [of 12 n 3] assms by simp

lemma str_nat_not_Nil: "str_nat k \<noteq> []"
  by (subst str_nat.simps) simp

lemma str_int_not_Nil: "str_int i \<noteq> []"
  by (simp add: str_int_def str_nat_not_Nil)

section \<open>Valid ISBN-10 strings\<close>

lemma valid_isbn10_sum:
  assumes "valid_isbn10 x"
  shows "(isbn10_weighted (take 9 x) + isbn10_check_val (x ! 9)) mod 11 = 0"
proof -
  from assms have len: "length x = 10" and dec: "list_all isdecimal (take 9 x)"
    by (simp_all add: valid_isbn10_def)
  from assms have "sum_list (map (\<lambda>i. isbn10_check_val (x ! i) * (10 - int i)) [0..<length x]) mod 11 = 0"
    unfolding valid_isbn10_def by blast
  then have sum: "sum_list (map (\<lambda>i. isbn10_check_val (x ! i) * (10 - int i)) [0..<10]) mod 11 = 0"
    unfolding len .
  have eq: "map (\<lambda>i. isbn10_check_val (x ! i) * (10 - int i)) [0..<9]
          = map (\<lambda>i. digit_val (take 9 x ! i) * (10 - int i)) [0..<9]"
  proof (rule map_cong [OF refl])
    fix i assume "i \<in> set [0..<9]"
    then have i: "i < 9" by simp
    with len have "take 9 x ! i \<in> set (take 9 x)" by (intro nth_mem) simp
    with dec have "isdecimal (take 9 x ! i)" by (simp add: list_all_iff)
    with i have "isdecimal (x ! i)" by simp
    then have "x ! i \<noteq> CHR ''X''" by auto
    with i show "isbn10_check_val (x ! i) * (10 - int i) = digit_val (take 9 x ! i) * (10 - int i)"
      by (simp add: isbn10_check_val_def)
  qed
  have split: "[0..<10] = [0..<9] @ [9::nat]"
    using upt_Suc_append [of 0 9] by simp
  have "sum_list (map (\<lambda>i. isbn10_check_val (x ! i) * (10 - int i)) [0..<10])
      = sum_list (map (\<lambda>i. isbn10_check_val (x ! i) * (10 - int i)) [0..<9]) + isbn10_check_val (x ! 9)"
    unfolding split by simp
  also have "\<dots> = isbn10_weighted (take 9 x) + isbn10_check_val (x ! 9)"
    unfolding eq using len by (simp add: isbn10_weighted_def)
  finally show ?thesis using sum by simp
qed

lemma check_from_sum:
  assumes "(w + v) mod 11 = 0" and "0 \<le> v" and "v \<le> 10"
  shows "(11 - w mod 11) mod 11 = (v::int)"
proof -
  define r where "r = w mod 11"
  have r: "0 \<le> r" "r < 11" by (simp_all add: r_def)
  have "(r + v) mod 11 = 0" using assms(1) by (simp add: r_def mod_add_left_eq)
  then have "11 dvd r + v" by (simp add: dvd_eq_mod_eq_0)
  then obtain k where k: "r + v = 11 * k" by (auto simp: dvd_def)
  with r assms(2,3) have "k = 0 \<or> k = 1" by arith
  then show ?thesis
  proof
    assume "k = 0"
    with k r assms(2) have "r = 0" "v = 0" by simp_all
    then show ?thesis unfolding r_def [symmetric] by simp
  next
    assume "k = 1"
    with k have v: "11 - r = v" by simp
    with assms(2,3) show ?thesis unfolding r_def [symmetric] by simp
  qed
qed

lemma valid_isbn10_check:
  assumes "valid_isbn10 x"
  shows "(if (11 - isbn10_weighted (take 9 x) mod 11) mod 11 = 10 then ''X''
          else [digit_chr (nat ((11 - isbn10_weighted (take 9 x) mod 11) mod 11))]) = [x ! 9]"
proof (cases "x ! 9 = CHR ''X''")
  case True
  then have "isbn10_check_val (x ! 9) = 10" by (simp add: isbn10_check_val_def)
  with valid_isbn10_sum [OF assms]
  have "(11 - isbn10_weighted (take 9 x) mod 11) mod 11 = 10"
    using check_from_sum [of "isbn10_weighted (take 9 x)" 10] by simp
  with True show ?thesis by simp
next
  case False
  with assms have d: "isdecimal (x ! 9)" by (auto simp: valid_isbn10_def)
  from False have v: "isbn10_check_val (x ! 9) = digit_val (x ! 9)"
    by (simp add: isbn10_check_val_def)
  have "(11 - isbn10_weighted (take 9 x) mod 11) mod 11 = digit_val (x ! 9)"
    using valid_isbn10_sum [OF assms] digit_val_range [OF d] v
    by (intro check_from_sum) simp_all
  with digit_val_range [OF d] digit_chr_digit_val [OF d] show ?thesis by simp
qed

lemma valid_isbn10_normal:
  assumes "valid_isbn10 x"
  shows "only_number x = Inr x"
proof (rule only_number_fixed)
  from assms have len: "length x = 10" by (simp add: valid_isbn10_def)
  then show nonempty: "x \<noteq> []" by auto
  from len have "butlast x = take 9 x" by (simp add: butlast_conv_take)
  with assms show "\<forall>c \<in> set (butlast x). isdecimal c"
    by (simp add: valid_isbn10_def list_all_iff)
  from len nonempty have "last x = x ! 9" by (simp add: last_conv_nth)
  with assms show "last x = CHR ''X'' \<or> isdecimal (last x)"
    by (auto simp: valid_isbn10_def)
qed

lemma roundtrip_normal:
  assumes "only_number x = Inr n" and "valid_isbn10 n"
  shows "isbn10_roundtrip x = Inr n"
proof -
  from assms(2) have len: "length n = 10" and dec: "list_all isdecimal (take 9 n)"
    by (simp_all add: valid_isbn10_def)
  let ?d = "digit_chr (nat ((10 - isbn13_weighted (''978'' @ take 9 n) mod 10) mod 10))"
  let ?y = "''978'' @ take 9 n @ [?d]"
  have y: "isbn10_to_isbn13 x = Inr ?y"
    by (rule isbn10_to_isbn13_normal [OF assms(1) len])
  have "nat ((10 - isbn13_weighted (''978'' @ take 9 n) mod 10) mod 10) < 10"
    using isbn13_weighted_mod [of "isbn13_weighted (''978'' @ take 9 n)"] by simp
  then have d: "isdecimal ?d" by (rule isdecimal_digit_chr)
  have bl: "butlast ?y = ''978'' @ take 9 n" by (simp add: butlast_append)
  have "only_number ?y = Inr ?y"
  proof (rule only_number_fixed)
    show "?y \<noteq> []" by simp
    show "\<forall>c \<in> set (butlast ?y). isdecimal c"
      unfolding bl using dec by (auto simp: list_all_iff isdecimal_def)
    show "last ?y = CHR ''X'' \<or> isdecimal (last ?y)" using d by simp
  qed
  moreover have "length ?y = 13" using len by simp
  moreover have "take 3 ?y = ''978''" by simp
  ultimately have r: "isbn13_to_isbn10 ?y =
     Inr (take 9 (drop 3 ?y) @
          (if (11 - isbn10_weighted (take 9 (drop 3 ?y)) mod 11) mod 11 = 10 then ''X''
           else [digit_chr (nat ((11 - isbn10_weighted (take 9 (drop 3 ?y)) mod 11) mod 11))]))"
    by (rule isbn13_to_isbn10_normal)
  have body: "take 9 (drop 3 ?y) = take 9 n" using len by simp
  have "isbn13_to_isbn10 ?y = Inr (take 9 n @ [n ! 9])"
    using r unfolding body valid_isbn10_check [OF assms(2)] .
  moreover have "take 9 n @ [n ! 9] = n"
    using len take_Suc_conv_app_nth [of 9 n] by simp
  ultimately have "isbn13_to_isbn10 ?y = Inr n" by simp
  with y show ?thesis by (simp only: isbn10_roundtrip_def sum.case)
qed

section \<open>The combined resolver\<close>

lemma only_number_returns: "s \<noteq> [] \<Longrightarrow> \<exists>n. only_number s = Inr n"
  by (simp add: only_number_def)

lemma length_10_not_Nil: "length (n::string) = 10 \<Longrightarrow> n \<noteq> []"
  by auto

lemma isbn10_vector: "isbn10_to_isbn13 ''0306406152'' = Inr ''9780306406157''"
  using isbn10_to_isbn13_normal [of "''0306406152''" "''0306406152''"]
  by (simp add: only_number_def isdecimal_def isbn13_weighted_def digit_val_def digit_chr_def)

lemma isbn13_vector: "isbn13_to_isbn10 ''9780306406157'' = Inr ''0306406152''"
  using isbn13_to_isbn10_normal [of "''9780306406157''" "''9780306406157''"]
  by (simp add: only_number_def isdecimal_def isbn10_weighted_def digit_val_def digit_chr_def)

lemma str_int_vector: "str_int 9780306406157 = ''9780306406157''"
  by (simp add: str_int_def str_nat.simps digit_chr_def)

lemma str_nat_decimal: "list_all isdecimal (str_nat k)"
proof (induction k rule: str_nat.induct)
  case (1 k)
  show ?case
  proof (cases "k < 10")
    case True
    then show ?thesis by (subst str_nat.simps) (simp add: isdecimal_digit_chr)
  next
    case False
    with "1.IH" have "list_all isdecimal (str_nat (k div 10))" by simp
    moreover have "isdecimal (digit_chr (k mod 10))" by (rule isdecimal_digit_chr) simp
    ultimately show ?thesis using False by (subst str_nat.simps) simp
  qed
qed

lemma nat_of_digits_str_nat: "nat_of_digits (str_nat k) = k"
proof (induction k rule: str_nat.induct)
  case (1 k)
  show ?case
  proof (cases "k < 10")
    case True
    then show ?thesis
      by (subst str_nat.simps) (simp add: nat_of_digits_def digit_val_digit_chr)
  next
    case False
    with "1.IH" have ih: "nat_of_digits (str_nat (k div 10)) = k div 10" by simp
    have "k mod 10 < 10" by simp
    then have d: "digit_val (digit_chr (k mod 10)) = int (k mod 10)" by (rule digit_val_digit_chr)
    have "nat_of_digits (str_nat k) = 10 * nat_of_digits (str_nat (k div 10)) + k mod 10"
      using False d by (subst str_nat.simps) (simp add: nat_of_digits_def)
    with ih show ?thesis by simp
  qed
qed

lemma int_of_decimal_str_int: "int_of_decimal (str_int i) = i"
proof (cases "i < 0")
  case True
  then show ?thesis by (simp add: int_of_decimal_def str_int_def nat_of_digits_str_nat)
next
  case False
  obtain c ds where s: "str_nat (nat i) = c # ds"
    using str_nat_not_Nil [of "nat i"] by (cases "str_nat (nat i)") auto
  with str_nat_decimal [of "nat i"] have "isdecimal c" by simp
  then have "c \<noteq> CHR ''-''" by (auto simp: isdecimal_def)
  with False s nat_of_digits_str_nat [of "nat i"] show ?thesis
    by (simp add: int_of_decimal_def str_int_def)
qed

lemma calc_both_isbn_PyInt: "calc_both_isbn (PyInt i) = calc_both_isbn (PyStr (str_int i))"
  by (simp add: calc_both_isbn_def coerce_def)

lemma calc_both_isbn_PyBool:
  "calc_both_isbn (PyBool b) = calc_both_isbn (PyStr (str_bool b))"
  by (simp add: calc_both_isbn_def coerce_def)

lemma calc_both_isbn_PyBool_result: "calc_both_isbn (PyBool b) = Inl InvalidFormat"
  by (cases b) (simp_all add: calc_both_isbn_def coerce_def str_bool_def only_number_def isdecimal_def)

lemma calc_both_isbn_PyOther: "calc_both_isbn PyOther = Inl InvalidArgument"
  by (simp add: calc_both_isbn_def coerce_def)

lemma length_13_not_Nil: "length (n::string) = 13 \<Longrightarrow> n \<noteq> []"
  by auto

lemma calc_both_isbn_PyStr:
  assumes "s \<noteq> []"
  shows "\<exists>n. only_number s = Inr n
     \<and> (length n = 10 \<longrightarrow>
          (\<exists>isbn13. isbn10_to_isbn13 n = Inr isbn13 \<and> calc_both_isbn (PyStr s) = Inr (n, isbn13)))
     \<and> (length n = 13 \<and> take 3 n = ''978'' \<longrightarrow>
          (\<exists>isbn10. isbn13_to_isbn10 n = Inr isbn10 \<and> calc_both_isbn (PyStr s) = Inr (isbn10, n)))
     \<and> (length n = 13 \<and> take 3 n \<noteq> ''978'' \<longrightarrow> calc_both_isbn (PyStr s) = Inl InvalidFormat)
     \<and> (length n \<noteq> 10 \<and> length n \<noteq> 13 \<longrightarrow> calc_both_isbn (PyStr s) = Inl InvalidFormat)"
proof -
  from assms obtain n where n: "only_number s = Inr n"
    using only_number_returns by blast
  have ten: "\<exists>isbn13. isbn10_to_isbn13 n = Inr isbn13 \<and> calc_both_isbn (PyStr s) = Inr (n, isbn13)"
    if len: "length n = 10"
  proof -
    from len have "n \<noteq> []" by (rule length_10_not_Nil)
    then have "only_number n = Inr n" by (rule only_number_idem [OF n])
    from isbn10_to_isbn13_normal [OF this len] obtain isbn13
      where r: "isbn10_to_isbn13 n = Inr isbn13" by blast
    with n len have "calc_both_isbn (PyStr s) = Inr (n, isbn13)"
      by (simp add: calc_both_isbn_def coerce_def)
    with r show ?thesis by blast
  qed
  have thirteen: "\<exists>isbn10. isbn13_to_isbn10 n = Inr isbn10 \<and> calc_both_isbn (PyStr s) = Inr (isbn10, n)"
    if h: "length n = 13 \<and> take 3 n = ''978''"
  proof -
    from h have len: "length n = 13" and pre: "take 3 n = ''978''" by simp_all
    from len have "n \<noteq> []" by (rule length_13_not_Nil)
    then have "only_number n = Inr n" by (rule only_number_idem [OF n])
    from isbn13_to_isbn10_normal [OF this len pre] obtain isbn10
      where r: "isbn13_to_isbn10 n = Inr isbn10" by blast
    with n len have "calc_both_isbn (PyStr s) = Inr (isbn10, n)"
      by (simp add: calc_both_isbn_def coerce_def)
    with r show ?thesis by blast
  qed
  have other13: "calc_both_isbn (PyStr s) = Inl InvalidFormat"
    if h: "length n = 13 \<and> take 3 n \<noteq> ''978''"
  proof -
    from h have len: "length n = 13" and pre: "take 3 n \<noteq> ''978''" by simp_all
    from len have "n \<noteq> []" by (rule length_13_not_Nil)
    then have "only_number n = Inr n" by (rule only_number_idem [OF n])
    with len pre have "isbn13_to_isbn10 n = Inl InvalidFormat"
      by (simp add: isbn13_to_isbn10_def)
    with n len show ?thesis by (simp add: calc_both_isbn_def coerce_def)
  qed
  have other: "calc_both_isbn (PyStr s) = Inl InvalidFormat" if "length n \<noteq> 10 \<and> length n \<noteq> 13"
    using that n by (simp add: calc_both_isbn_def coerce_def)
  from n ten thirteen other13 other show ?thesis by blast
qed

section \<open>The lookups of the four clients\<close>

lemma OpenLibraryAPI_contract:
  "lookup_contract (requests_get (OpenLibraryAPI_request self isbn)) parse
       (fst (OpenLibraryAPI_isbn_search self requests_get parse isbn))"
proof (cases "requests_get (OpenLibraryAPI_request self isbn)")
  case (Inl e)
  then show ?thesis
    by (cases e) (simp_all add: lookup_contract_def OpenLibraryAPI_isbn_search_def Let_def)
next
  case (Inr r)
  then show ?thesis
    by (cases "parse (body_text r)") (simp_all add: lookup_contract_def OpenLibraryAPI_isbn_search_def Let_def)
qed

lemma OpenLibraryAPI_requests:
  "snd (OpenLibraryAPI_isbn_search self requests_get parse isbn) = [OpenLibraryAPI_request self isbn]"
proof (cases "requests_get (OpenLibraryAPI_request self isbn)")
  case (Inl e)
  then show ?thesis
    by (cases e) (simp_all add: OpenLibraryAPI_isbn_search_def Let_def)
next
  case (Inr r)
  then show ?thesis
    by (cases "parse (body_text r)") (simp_all add: OpenLibraryAPI_isbn_search_def Let_def)
qed

lemma GoogleBooksAPI_contract:
  "lookup_contract (requests_get (GoogleBooksAPI_request self isbn)) parse
       (fst (GoogleBooksAPI_isbn_search self requests_get parse isbn))"
proof (cases "requests_get (GoogleBooksAPI_request self isbn)")
  case (Inl e)
  then show ?thesis
    by (cases e) (simp_all add: lookup_contract_def GoogleBooksAPI_isbn_search_def Let_def)
next
  case (Inr r)
  then show ?thesis
    by (cases "parse (body_text r)") (simp_all add: lookup_contract_def GoogleBooksAPI_isbn_search_def Let_def)
qed

lemma GoogleBooksAPI_requests:
  "snd (GoogleBooksAPI_isbn_search self requests_get parse isbn) = [GoogleBooksAPI_request self isbn]"
proof (cases "requests_get (GoogleBooksAPI_request self isbn)")
  case (Inl e)
  then show ?thesis
    by (cases e) (simp_all add: GoogleBooksAPI_isbn_search_def Let_def)
next
  case (Inr r)
  then show ?thesis
    by (cases "parse (body_text r)") (simp_all add: GoogleBooksAPI_isbn_search_def Let_def)
qed

lemma NDLAPI_contract:
  "lookup_contract (requests_get (NDLAPI_request self isbn)) parse
       (fst (NDLAPI_isbn_search self requests_get parse isbn))"
proof (cases "requests_get (NDLAPI_request self isbn)")
  case (Inl e)
  then show ?thesis
    by (cases e) (simp_all add: lookup_contract_def NDLAPI_isbn_search_def Let_def)
next
  case (Inr r)
  then show ?thesis
    by (cases "parse (body_text r)") (simp_all add: lookup_contract_def NDLAPI_isbn_search_def Let_def)
qed

lemma NDLAPI_requests:
  "snd (NDLAPI_isbn_search self requests_get parse isbn) = [NDLAPI_request self isbn]"
proof (cases "requests_get (NDLAPI_request self isbn)")
  case (Inl e)
  then show ?thesis
    by (cases e) (simp_all add: NDLAPI_isbn_search_def Let_def)
next
  case (Inr r)
  then show ?thesis
    by (cases "parse (body_text r)") (simp_all add: NDLAPI_isbn_search_def Let_def)
qed

lemma OpenBDAPI_contract:
  "lookup_contract (requests_get (OpenBDAPI_request self isbn)) parse
       (fst (OpenBDAPI_isbn_search self requests_get parse isbn))"
proof (cases "requests_get (OpenBDAPI_request self isbn)")
  case (Inl e)
  then show ?thesis
    by (cases e) (simp_all add: lookup_contract_def OpenBDAPI_isbn_search_def Let_def)
next
  case (Inr r)
  then show ?thesis
    by (cases "parse (body_text r)") (simp_all add: lookup_contract_def OpenBDAPI_isbn_search_def Let_def)
qed

lemma OpenBDAPI_requests:
  "snd (OpenBDAPI_isbn_search self requests_get parse isbn) = [OpenBDAPI_request self isbn]"
proof (cases "requests_get (OpenBDAPI_request self isbn)")
  case (Inl e)
  then show ?thesis
    by (cases e) (simp_all add: OpenBDAPI_isbn_search_def Let_def)
next
  case (Inr r)
  then show ?thesis
    by (cases "parse (body_text r)") (simp_all add: OpenBDAPI_isbn_search_def Let_def)
qed

section \<open>The claims\<close>

subsection \<open>C8: the normaliser on the empty string\<close>

text \<open>C8: on the empty string \<^verbatim>\<open>only_number\<close> fails with the index-out-of-range error
  (it reads the last character before anything else) and returns no value.\<close>

theorem only_number_empty: "only_number '''' = Inl IndexError"
  by (simp add: only_number_def)

subsection \<open>C4: idempotence of the normaliser\<close>

text \<open>C4 as stated, at the one-character string \<^verbatim>\<open>-\<close>: its normalisation is the empty
  string, on which the second call fails.\<close>

theorem only_number_idempotent_counterexample:
  "1 \<le> length ''-'' \<and> only_number ''-'' = Inr '''' \<and> only_number_twice ''-'' = Inl IndexError
   \<and> only_number_twice ''-'' \<noteq> only_number ''-''"
  by (simp add: only_number_twice_def only_number_def isdecimal_def)

text \<open>C4 (amended): for every input \<open>s\<close> whose normalisation is not empty (that is, \<open>s\<close>
  holds a decimal digit or ends in \<^verbatim>\<open>X\<close>), \<^verbatim>\<open>only_number(only_number(s))\<close> equals
  \<^verbatim>\<open>only_number(s)\<close>.\<close>

theorem only_number_idempotent:
  assumes "only_number s = Inr n" and "n \<noteq> []"
  shows "only_number_twice s = only_number s"
  using only_number_idem [OF assms] assms(1) by (simp add: only_number_twice_def)

theorem only_number_idempotent_witness:
  "only_number ''0-306-40615-2'' = Inr ''0306406152''
   \<and> only_number_twice ''0-306-40615-2'' = Inr ''0306406152''
   \<and> only_number_twice ''0 8044 2957 X'' = Inr ''080442957X''"
  using only_number_idempotent [of "''0-306-40615-2''" "''0306406152''"]
    only_number_idempotent [of "''0 8044 2957 X''" "''080442957X''"]
  by (simp add: only_number_def isdecimal_def)

subsection \<open>C1: the round trip\<close>

text \<open>C1 as stated, at the hyphenated ISBN-10 \<^verbatim>\<open>0-306-40615-2\<close>: its normalisation has 10
  characters, nine digits and the correct check digit, and the round trip returns the
  normalisation, not the input.\<close>

theorem isbn10_roundtrip_counterexample:
  "only_number ''0-306-40615-2'' = Inr ''0306406152'' \<and> valid_isbn10 ''0306406152''
   \<and> isbn10_roundtrip ''0-306-40615-2'' = Inr ''0306406152''
   \<and> ''0306406152'' \<noteq> ''0-306-40615-2''"
proof -
  have n: "only_number ''0-306-40615-2'' = Inr ''0306406152''"
    by (simp add: only_number_def isdecimal_def)
  have v: "valid_isbn10 ''0306406152''"
    by (simp add: valid_isbn10_def isdecimal_def isbn10_check_val_def digit_val_def)
  from roundtrip_normal [OF n v] n v show ?thesis by simp
qed

text \<open>C1 (amended): for every \<open>x\<close> whose normalisation \<open>n\<close> is a valid ISBN-10, the round
  trip \<^verbatim>\<open>isbn13_to_isbn10(isbn10_to_isbn13(x))\<close> returns \<open>n\<close>; in particular it returns \<open>x\<close>
  for every \<open>x\<close> that is itself a valid ISBN-10 of exactly 10 characters.\<close>

theorem isbn10_roundtrip_normalised:
  "(only_number x = Inr n \<and> valid_isbn10 n \<longrightarrow> isbn10_roundtrip x = Inr n)
   \<and> (valid_isbn10 x \<longrightarrow> isbn10_roundtrip x = Inr x)"
  using roundtrip_normal [of x n] roundtrip_normal [of x x] valid_isbn10_normal [of x] by blast

text \<open>A hyphenated input, and a 10-character input with the check digit \<^verbatim>\<open>X\<close>.\<close>

theorem isbn10_roundtrip_normalised_witness:
  "isbn10_roundtrip ''0-306-40615-2'' = Inr ''0306406152''
   \<and> isbn10_roundtrip ''080442957X'' = Inr ''080442957X''"
  using isbn10_roundtrip_normalised [of "''0-306-40615-2''" "''0306406152''"]
    isbn10_roundtrip_normalised [of "''080442957X''" "''080442957X''"]
  by (simp add: only_number_def isdecimal_def valid_isbn10_def isbn10_check_val_def digit_val_def)

subsection \<open>C2: the result of \<^verbatim>\<open>isbn10_to_isbn13\<close>\<close>

text \<open>C2 (amended): for every input whose normalisation via \<^verbatim>\<open>only_number\<close> has length
  exactly 10, \<^verbatim>\<open>isbn10_to_isbn13\<close> returns the body \<^verbatim>\<open>978\<close> followed by the first 9
  characters of the normalised input, followed by the check digit
  \<open>(10 - (S mod 10)) mod 10\<close>, where \<open>S\<close> weights the 12 body digits by 1 at even and by 3
  at odd positions; the result has 13 characters, all decimal digits, and the last one is
  the digit whose value is the check digit. In particular
  \<^verbatim>\<open>isbn10_to_isbn13("0306406152")\<close> is \<^verbatim>\<open>9780306406157\<close>.\<close>

theorem isbn10_to_isbn13_formula:
  assumes "only_number s = Inr n" and "length n = 10"
  shows "let body = ''978'' @ take 9 n;
             check = (10 - isbn13_weighted body mod 10) mod 10;
             result = body @ [digit_chr (nat check)]
         in isbn10_to_isbn13 s = Inr result \<and> 0 \<le> check \<and> check \<le> 9
            \<and> length result = 13 \<and> list_all isdecimal result
            \<and> digit_val (result ! 12) = check"
proof -
  let ?body = "''978'' @ take 9 n"
  let ?check = "(10 - isbn13_weighted ?body mod 10) mod 10"
  let ?result = "?body @ [digit_chr (nat ?check)]"
  have lo: "0 \<le> ?check" and hi: "?check \<le> 9"
    using isbn13_weighted_mod [of "isbn13_weighted ?body"] by simp_all
  then have lt: "nat ?check < 10" by simp
  then have last: "isdecimal (digit_chr (nat ?check))" by (rule isdecimal_digit_chr)
  from lo have "int (nat ?check) = ?check" by simp
  with digit_val_digit_chr [OF lt] have val: "digit_val (digit_chr (nat ?check)) = ?check" by simp
  have bl: "butlast n = take 9 n" using assms(2) by (simp add: butlast_conv_take)
  have body: "list_all isdecimal ?body"
    using only_number_butlast_decimal [OF assms(1)] bl by (auto simp: isdecimal_def list_all_iff)
  with last have dec: "list_all isdecimal ?result" by simp
  have len: "length ?body = 12" using assms(2) by simp
  then have lenr: "length ?result = 13" by simp
  have "?result ! 12 = digit_chr (nat ?check)"
    using len by (metis nth_append_length)
  with val have v: "digit_val (?result ! 12) = ?check" by (simp only:)
  have r: "isbn10_to_isbn13 s = Inr ?result"
    using isbn10_to_isbn13_normal [OF assms] by simp
  from r lo hi lenr dec v show ?thesis
    unfolding Let_def by blast
qed

text \<open>The formula at the known ISBN-10 \<^verbatim>\<open>0306406152\<close> (check digit 7) and at an ISBN-10
  ending in \<^verbatim>\<open>X\<close> (check digit 3).\<close>

theorem isbn10_to_isbn13_formula_witness:
  "isbn10_to_isbn13 ''0306406152'' = Inr ''9780306406157''
   \<and> isbn10_to_isbn13 ''0 8044 2957 X'' = Inr ''9780804429573''"
proof -
  have a: "only_number ''0306406152'' = Inr ''0306406152''"
    and b: "only_number ''0 8044 2957 X'' = Inr ''080442957X''"
    by (simp_all add: only_number_def isdecimal_def)
  have "isbn10_to_isbn13 ''0306406152'' = Inr ''9780306406157''"
    using isbn10_to_isbn13_formula [OF a, unfolded Let_def, THEN conjunct1]
    by (simp add: isbn13_weighted_def digit_val_def digit_chr_def)
  moreover have "isbn10_to_isbn13 ''0 8044 2957 X'' = Inr ''9780804429573''"
    using isbn10_to_isbn13_formula [OF b, unfolded Let_def, THEN conjunct1]
    by (simp add: isbn13_weighted_def digit_val_def digit_chr_def)
  ultimately show ?thesis by (intro conjI)
qed

text \<open>C2, the vector as the claim gives it: the check digit of \<^verbatim>\<open>978030640615\<close> is 7
  (weighted sum 93), so the result does not end in 3.\<close>

theorem isbn10_to_isbn13_vector_counterexample:
  "isbn10_to_isbn13 ''0306406152'' \<noteq> Inr ''9780306406153''"
  by (simp add: isbn10_to_isbn13_def only_number_def isdecimal_def py_int_def digit_val_def
      str_int_def str_nat.simps digit_chr_def)

subsection \<open>C3: the result of \<^verbatim>\<open>isbn13_to_isbn10\<close>\<close>

text \<open>C3: for every input whose normalisation via \<^verbatim>\<open>only_number\<close> has length exactly 13
  and starts with \<^verbatim>\<open>978\<close>, \<^verbatim>\<open>isbn13_to_isbn10\<close> returns the characters at positions 3
  to 11 of the normalised input followed by the check digit \<open>(11 - (S mod 11)) mod 11\<close>,
  where \<open>S\<close> weights the body digit at position \<open>i\<close> by \<open>10 - i\<close>; the check digit 10 is
  written \<^verbatim>\<open>X\<close>, any other as the decimal digit character whose value it is; the result
  has 10 characters.\<close>

theorem isbn13_to_isbn10_formula:
  assumes "only_number s = Inr n" and "length n = 13" and "take 3 n = ''978''"
  shows "let body = map ((!) n) [3..<12];
             check = (11 - isbn10_weighted body mod 11) mod 11;
             result = body @ (if check = 10 then ''X'' else [digit_chr (nat check)])
         in isbn13_to_isbn10 s = Inr result \<and> 0 \<le> check \<and> check \<le> 10
            \<and> length result = 10 \<and> list_all isdecimal body
            \<and> (check = 10 \<longrightarrow> result ! 9 = CHR ''X'')
            \<and> (check \<noteq> 10 \<longrightarrow> isdecimal (result ! 9) \<and> digit_val (result ! 9) = check)"
proof -
  let ?body = "take 9 (drop 3 n)"
  let ?check = "(11 - isbn10_weighted ?body mod 11) mod 11"
  let ?result = "?body @ (if ?check = 10 then ''X'' else [digit_chr (nat ?check)])"
  have pos: "map ((!) n) [3..<12] = ?body" by (rule positions_3_to_11 [OF assms(2)])
  have "?body = drop 3 (butlast n)"
    using assms(2) by (simp add: butlast_conv_take drop_take)
  then have "set ?body \<subseteq> set (butlast n)"
    by (simp add: set_drop_subset)
  with only_number_butlast_decimal [OF assms(1)]
  have dec: "list_all isdecimal ?body" by (auto simp: list_all_iff)
  have lo: "0 \<le> ?check" and hi: "?check \<le> 10"
    using isbn10_check_range [of "isbn10_weighted ?body"] by simp_all
  have len: "length ?body = 9" using assms(2) by simp
  have r: "isbn13_to_isbn10 s = Inr ?result" by (rule isbn13_to_isbn10_normal [OF assms])
  have lenr: "length ?result = 10" using len by simp
  have x: "?check = 10 \<longrightarrow> ?result ! 9 = CHR ''X''"
    using len by (simp add: nth_append)
  have d: "?check \<noteq> 10 \<longrightarrow> isdecimal (?result ! 9) \<and> digit_val (?result ! 9) = ?check"
  proof
    assume ne: "?check \<noteq> 10"
    with lo hi have lt: "nat ?check < 10" by simp
    from lo have "int (nat ?check) = ?check" by simp
    with isdecimal_digit_chr [OF lt] digit_val_digit_chr [OF lt]
    have "isdecimal (digit_chr (nat ?check)) \<and> digit_val (digit_chr (nat ?check)) = ?check"
      by simp
    moreover from ne len have "?result ! 9 = digit_chr (nat ?check)"
      by (simp add: nth_append)
    ultimately show "isdecimal (?result ! 9) \<and> digit_val (?result ! 9) = ?check"
      by (simp only:)
  qed
  from r lo hi lenr dec x d show ?thesis
    unfolding Let_def pos by blast
qed

text \<open>The formula at the known vector (check digit 2), at an input whose check digit is
  10, and at one whose check digit is 8.\<close>

theorem isbn13_to_isbn10_formula_witness:
  "isbn13_to_isbn10 ''9780306406153'' = Inr ''0306406152''
   \<and> isbn13_to_isbn10 ''978-0-8044-2957-3'' = Inr ''080442957X''
   \<and> isbn13_to_isbn10 ''9780131103627'' = Inr ''0131103628''"
proof -
  have a: "only_number ''9780306406153'' = Inr ''9780306406153''"
    and b: "only_number ''978-0-8044-2957-3'' = Inr ''9780804429573''"
    and c: "only_number ''9780131103627'' = Inr ''9780131103627''"
    by (simp_all add: only_number_def isdecimal_def)
  have "isbn13_to_isbn10 ''9780306406153'' = Inr ''0306406152''"
    using isbn13_to_isbn10_formula [OF a, unfolded Let_def, THEN conjunct1]
    by (simp add: isbn10_weighted_def digit_val_def digit_chr_def)
  moreover have "isbn13_to_isbn10 ''978-0-8044-2957-3'' = Inr ''080442957X''"
    using isbn13_to_isbn10_formula [OF b, unfolded Let_def, THEN conjunct1]
    by (simp add: isbn10_weighted_def digit_val_def digit_chr_def)
  moreover have "isbn13_to_isbn10 ''9780131103627'' = Inr ''0131103628''"
    using isbn13_to_isbn10_formula [OF c, unfolded Let_def, THEN conjunct1]
    by (simp add: isbn10_weighted_def digit_val_def digit_chr_def)
  ultimately show ?thesis by (intro conjI)
qed

subsection \<open>C5: the combined resolver\<close>

text \<open>C5 as stated, at the empty string: the argument is a string, its normalisation
  fails with the index-out-of-range error, and that error, not the invalid-format error,
  is what \<^verbatim>\<open>calc_both_isbn\<close> raises.\<close>

theorem calc_both_isbn_empty_counterexample:
  "calc_both_isbn (PyStr '''') = Inl IndexError"
  by (simp add: calc_both_isbn_def coerce_def only_number_def)

text \<open>C5 (amended): for every input other than the empty string: an input that is neither
  a string nor an integer fails with the invalid-argument error; an integer is treated as
  its string form, which is its decimal numeral (reading it back gives the integer) and is
  never empty; a bool, an integer for \<^verbatim>\<open>isinstance\<close>, is treated as its string form too and
  ends in the invalid-format error. A non-empty string \<open>s\<close> is normalised via
  \<^verbatim>\<open>only_number\<close>, which returns a string \<open>n\<close>; if \<open>n\<close> has length 10 the result is the pair
  of \<open>n\<close> and \<^verbatim>\<open>isbn10_to_isbn13\<close> of it, which always returns; if \<open>n\<close> has length 13 and
  starts with \<^verbatim>\<open>978\<close> the result is the pair of \<^verbatim>\<open>isbn13_to_isbn10\<close> of it, which then
  returns, and \<open>n\<close>; if \<open>n\<close> has length 13 and another prefix, or any other length, the
  result is the invalid-format error.\<close>

theorem calc_both_isbn_cases:
  "calc_both_isbn PyOther = Inl InvalidArgument
   \<and> calc_both_isbn (PyInt i) = calc_both_isbn (PyStr (str_int i))
   \<and> int_of_decimal (str_int i) = i \<and> str_int i \<noteq> []
   \<and> calc_both_isbn (PyBool b) = calc_both_isbn (PyStr (str_bool b))
   \<and> calc_both_isbn (PyBool b) = Inl InvalidFormat
   \<and> (s \<noteq> [] \<longrightarrow>
        (\<exists>n. only_number s = Inr n
           \<and> (length n = 10 \<longrightarrow>
                (\<exists>isbn13. isbn10_to_isbn13 n = Inr isbn13
                   \<and> calc_both_isbn (PyStr s) = Inr (n, isbn13)))
           \<and> (length n = 13 \<and> take 3 n = ''978'' \<longrightarrow>
                (\<exists>isbn10. isbn13_to_isbn10 n = Inr isbn10
                   \<and> calc_both_isbn (PyStr s) = Inr (isbn10, n)))
           \<and> (length n = 13 \<and> take 3 n \<noteq> ''978'' \<longrightarrow>
                calc_both_isbn (PyStr s) = Inl InvalidFormat)
           \<and> (length n \<noteq> 10 \<and> length n \<noteq> 13 \<longrightarrow>
                calc_both_isbn (PyStr s) = Inl InvalidFormat)))"
  using calc_both_isbn_PyOther calc_both_isbn_PyInt [of i] int_of_decimal_str_int [of i]
    str_int_not_Nil [of i] calc_both_isbn_PyBool [of b] calc_both_isbn_PyBool_result [of b]
    calc_both_isbn_PyStr [of s]
  by (intro conjI impI) assumption+

text \<open>A hyphenated ISBN-10, an ISBN-13 given as an integer, an ISBN-13 of the 979 range, a
  string without digits, a bool and a value that is neither string nor integer.\<close>

theorem calc_both_isbn_cases_witness:
  "calc_both_isbn (PyStr ''0-306-40615-2'') = Inr (''0306406152'', ''9780306406157'')
   \<and> calc_both_isbn (PyInt 9780306406157) = Inr (''0306406152'', ''9780306406157'')
   \<and> calc_both_isbn (PyStr ''979-10-90636-07-1'') = Inl InvalidFormat
   \<and> calc_both_isbn (PyStr ''-'') = Inl InvalidFormat
   \<and> calc_both_isbn (PyBool True) = Inl InvalidFormat
   \<and> calc_both_isbn PyOther = Inl InvalidArgument"
proof -
  have a: "calc_both_isbn (PyStr ''0-306-40615-2'') = Inr (''0306406152'', ''9780306406157'')"
    using calc_both_isbn_cases [where s = "''0-306-40615-2''"]
    by (simp add: isbn10_vector only_number_def isdecimal_def)
  have b: "calc_both_isbn (PyStr ''9780306406157'') = Inr (''0306406152'', ''9780306406157'')"
    using calc_both_isbn_cases [where s = "''9780306406157''"]
    by (simp add: isbn13_vector only_number_def isdecimal_def)
  have c: "calc_both_isbn (PyInt 9780306406157) = Inr (''0306406152'', ''9780306406157'')"
    using calc_both_isbn_cases [where i = 9780306406157] b
    by (simp add: str_int_vector)
  have d: "calc_both_isbn (PyStr ''979-10-90636-07-1'') = Inl InvalidFormat"
    using calc_both_isbn_cases [where s = "''979-10-90636-07-1''"]
    by (simp add: only_number_def isdecimal_def)
  have e: "calc_both_isbn (PyStr ''-'') = Inl InvalidFormat"
    using calc_both_isbn_cases [where s = "''-''"]
    by (simp add: only_number_def isdecimal_def)
  have f: "calc_both_isbn (PyBool True) = Inl InvalidFormat \<and> calc_both_isbn PyOther = Inl InvalidArgument"
    using calc_both_isbn_cases [where b = True and i = 0 and s = "[]"]
    by (elim conjE) (intro conjI; assumption)
  from a c d e f show ?thesis by simp
qed

subsection \<open>C6: inputs of the wrong length\<close>

text \<open>C6: for every input whose normalisation via \<^verbatim>\<open>only_number\<close> has a length other than
  10 and 13, \<^verbatim>\<open>isbn10_to_isbn13\<close>, \<^verbatim>\<open>isbn13_to_isbn10\<close> and \<^verbatim>\<open>calc_both_isbn\<close> all fail
  with the invalid-format error. The input \<open>v\<close> is a string or an integer and \<open>s\<close> is its
  string form, which is what the converters normalise.\<close>

theorem invalid_length_rejected:
  assumes "coerce v = Inr s" and "only_number s = Inr n"
    and "length n \<noteq> 10" and "length n \<noteq> 13"
  shows "isbn10_to_isbn13 s = Inl InvalidFormat
       \<and> isbn13_to_isbn10 s = Inl InvalidFormat
       \<and> calc_both_isbn v = Inl InvalidFormat"
  using assms by (simp add: isbn10_to_isbn13_def isbn13_to_isbn10_def calc_both_isbn_def)

text \<open>A nine-digit string and a nine-digit integer.\<close>

theorem invalid_length_rejected_witness:
  "isbn10_to_isbn13 ''0-306-40615'' = Inl InvalidFormat
   \<and> isbn13_to_isbn10 ''0-306-40615'' = Inl InvalidFormat
   \<and> calc_both_isbn (PyStr ''0-306-40615'') = Inl InvalidFormat
   \<and> calc_both_isbn (PyInt 306406152) = Inl InvalidFormat"
  using invalid_length_rejected [of "PyStr ''0-306-40615''" "''0-306-40615''" "''030640615''"]
    invalid_length_rejected [of "PyInt 306406152" "''306406152''" "''306406152''"]
  by (simp add: coerce_def only_number_def isdecimal_def str_int_def str_nat.simps digit_chr_def)

subsection \<open>C7: an ISBN-13 without the prefix 978\<close>

text \<open>C7: for every input whose normalisation via \<^verbatim>\<open>only_number\<close> has length 13 and does
  not start with \<^verbatim>\<open>978\<close>, \<^verbatim>\<open>isbn13_to_isbn10\<close> fails with the invalid-format error.\<close>

theorem isbn13_prefix_rejected:
  assumes "only_number s = Inr n" and "length n = 13" and "take 3 n \<noteq> ''978''"
  shows "isbn13_to_isbn10 s = Inl InvalidFormat"
  using assms by (simp add: isbn13_to_isbn10_def)

text \<open>An ISBN-13 of the 979 range.\<close>

theorem isbn13_prefix_rejected_witness:
  "only_number ''979-10-90636-07-1'' = Inr ''9791090636071''
   \<and> isbn13_to_isbn10 ''979-10-90636-07-1'' = Inl InvalidFormat"
  using isbn13_prefix_rejected [of "''979-10-90636-07-1''" "''9791090636071''"]
  by (simp add: only_number_def isdecimal_def)

subsection \<open>C9: the check digit of the input is not read\<close>

text \<open>C9: two inputs whose normalisations both have length 10 and agree on the first 9
  characters get the same result from \<^verbatim>\<open>isbn10_to_isbn13\<close>, and two inputs whose
  normalisations both have length 13, start with \<^verbatim>\<open>978\<close> and agree on the first 12
  characters get the same result from \<^verbatim>\<open>isbn13_to_isbn10\<close>; in both cases the result is
  a returned string, not an error.\<close>

theorem check_digit_ignored:
  "(only_number a = Inr na \<and> only_number b = Inr nb \<and> length na = 10 \<and> length nb = 10
      \<and> take 9 na = take 9 nb
    \<longrightarrow> isbn10_to_isbn13 a = isbn10_to_isbn13 b \<and> (\<exists>r. isbn10_to_isbn13 a = Inr r))
   \<and> (only_number a = Inr na \<and> only_number b = Inr nb \<and> length na = 13 \<and> length nb = 13
      \<and> take 3 na = ''978'' \<and> take 3 nb = ''978'' \<and> take 12 na = take 12 nb
    \<longrightarrow> isbn13_to_isbn10 a = isbn13_to_isbn10 b \<and> (\<exists>r. isbn13_to_isbn10 a = Inr r))"
proof (intro conjI impI)
  assume h: "only_number a = Inr na \<and> only_number b = Inr nb \<and> length na = 10 \<and> length nb = 10
      \<and> take 9 na = take 9 nb"
  then have "isbn10_to_isbn13 a = Inr (''978'' @ take 9 na @
          [digit_chr (nat ((10 - isbn13_weighted (''978'' @ take 9 na) mod 10) mod 10))])"
    and "isbn10_to_isbn13 b = Inr (''978'' @ take 9 nb @
          [digit_chr (nat ((10 - isbn13_weighted (''978'' @ take 9 nb) mod 10) mod 10))])"
    by (simp_all add: isbn10_to_isbn13_normal)
  with h show "isbn10_to_isbn13 a = isbn10_to_isbn13 b" and "\<exists>r. isbn10_to_isbn13 a = Inr r"
    by simp_all
next
  assume h: "only_number a = Inr na \<and> only_number b = Inr nb \<and> length na = 13 \<and> length nb = 13
      \<and> take 3 na = ''978'' \<and> take 3 nb = ''978'' \<and> take 12 na = take 12 nb"
  have body: "take 9 (drop 3 na) = take 9 (drop 3 nb)"
  proof -
    have "take 9 (drop 3 na) = drop 3 (take 12 na)" by (simp add: drop_take)
    also have "\<dots> = drop 3 (take 12 nb)" using h by simp
    also have "\<dots> = take 9 (drop 3 nb)" by (simp add: drop_take)
    finally show ?thesis .
  qed
  from h have "isbn13_to_isbn10 a =
     Inr (take 9 (drop 3 na) @
          (if (11 - isbn10_weighted (take 9 (drop 3 na)) mod 11) mod 11 = 10 then ''X''
           else [digit_chr (nat ((11 - isbn10_weighted (take 9 (drop 3 na)) mod 11) mod 11))]))"
    and "isbn13_to_isbn10 b =
     Inr (take 9 (drop 3 nb) @
          (if (11 - isbn10_weighted (take 9 (drop 3 nb)) mod 11) mod 11 = 10 then ''X''
           else [digit_chr (nat ((11 - isbn10_weighted (take 9 (drop 3 nb)) mod 11) mod 11))]))"
    by (simp_all add: isbn13_to_isbn10_normal)
  with body show "isbn13_to_isbn10 a = isbn13_to_isbn10 b" and "\<exists>r. isbn13_to_isbn10 a = Inr r"
    by simp_all
qed

text \<open>Inputs that differ in the check digit only (and in a separator).\<close>

theorem check_digit_ignored_witness:
  "isbn10_to_isbn13 ''0306406152'' = isbn10_to_isbn13 ''0-306-40615-9''
   \<and> isbn13_to_isbn10 ''9780306406157'' = isbn13_to_isbn10 ''978-0306406150''"
  using check_digit_ignored [of "''0306406152''" "''0306406152''" "''0-306-40615-9''" "''0306406159''"]
    check_digit_ignored [of "''9780306406157''" "''9780306406157''" "''978-0306406150''" "''9780306406150''"]
  by (simp add: only_number_def isdecimal_def)

subsection \<open>C10: the result of a lookup\<close>

text \<open>C10 as stated, at a response with status 200 and an empty body: the parser raises,
  the call of the parser is outside the \<^verbatim>\<open>try\<close> statement, and the exception reaches the
  caller.\<close>

theorem isbn_search_parse_counterexample:
  "fst (OpenLibraryAPI_isbn_search (OpenLibraryAPI 1 False) http_200_empty parse_nonempty
         ''9780306406157'') = Inl MalformedBody"
  by (simp add: OpenLibraryAPI_isbn_search_def http_200_empty_def parse_nonempty_def Let_def)

text \<open>C10 (amended): for each of the four clients, whatever the HTTP layer does with the
  request: if the request raises (timeout, connection failure or any other exception) the
  result is \<^verbatim>\<open>None\<close>; if the status is not 200 the result is \<^verbatim>\<open>None\<close>; if the status is 200
  the result is the parsed body (JSON for OpenLibrary, Google Books and OpenBD, XML for
  the National Diet Library), and an exception raised by the parser on that body reaches
  the caller. No exception of the request reaches the caller, and exactly one request is
  issued.\<close>

theorem isbn_search_contract:
  "lookup_contract (requests_get (OpenLibraryAPI_request self isbn)) json
       (fst (OpenLibraryAPI_isbn_search self requests_get json isbn))
   \<and> snd (OpenLibraryAPI_isbn_search self requests_get json isbn) = [OpenLibraryAPI_request self isbn]
   \<and> lookup_contract (requests_get (GoogleBooksAPI_request self isbn)) json
       (fst (GoogleBooksAPI_isbn_search self requests_get json isbn))
   \<and> snd (GoogleBooksAPI_isbn_search self requests_get json isbn) = [GoogleBooksAPI_request self isbn]
   \<and> lookup_contract (requests_get (NDLAPI_request self isbn)) xmltodict_parse
       (fst (NDLAPI_isbn_search self requests_get xmltodict_parse isbn))
   \<and> snd (NDLAPI_isbn_search self requests_get xmltodict_parse isbn) = [NDLAPI_request self isbn]
   \<and> lookup_contract (requests_get (OpenBDAPI_request self isbn)) json
       (fst (OpenBDAPI_isbn_search self requests_get json isbn))
   \<and> snd (OpenBDAPI_isbn_search self requests_get json isbn) = [OpenBDAPI_request self isbn]"
  by (intro conjI OpenLibraryAPI_contract OpenLibraryAPI_requests GoogleBooksAPI_contract
      GoogleBooksAPI_requests NDLAPI_contract NDLAPI_requests OpenBDAPI_contract OpenBDAPI_requests)

text \<open>A timeout, a status 404, a status 200 with a body that parses and one with a body
  that does not, and the single request of the OpenLibrary client.\<close>

theorem isbn_search_contract_witness:
  "fst (NDLAPI_isbn_search (NDLAPI 1 False) http_timeout parse_nonempty ''9780306406157'') = Inr None
   \<and> fst (OpenBDAPI_isbn_search (OpenBDAPI 1 False) http_404 parse_nonempty ''9780306406157'') = Inr None
   \<and> fst (GoogleBooksAPI_isbn_search (GoogleBooksAPI 1 False) http_200_braces parse_nonempty
            ''9780306406157'') = Inr (Some ''{}'')
   \<and> fst (OpenLibraryAPI_isbn_search (OpenLibraryAPI 1 False) http_200_empty parse_nonempty
            ''9780306406157'') = Inl MalformedBody
   \<and> snd (OpenLibraryAPI_isbn_search (OpenLibraryAPI 1 False) http_404 parse_nonempty ''9780306406157'')
       = [\<lparr>url = ''https://openlibrary.org/isbn/9780306406157.json'', params = [],
           request_timeout = 1\<rparr>]"
proof -
  note c = isbn_search_contract [where isbn = "''9780306406157''" and json = parse_nonempty
      and xmltodict_parse = parse_nonempty]
  have "fst (NDLAPI_isbn_search (NDLAPI 1 False) http_timeout parse_nonempty ''9780306406157'') = Inr None"
    using c [where requests_get = http_timeout and self = "NDLAPI 1 False"]
    by (simp add: lookup_contract_def http_timeout_def)
  moreover
  have "fst (OpenBDAPI_isbn_search (OpenBDAPI 1 False) http_404 parse_nonempty ''9780306406157'') = Inr None"
    using c [where requests_get = http_404 and self = "OpenBDAPI 1 False"]
    by (simp add: lookup_contract_def http_404_def)
  moreover
  have "fst (GoogleBooksAPI_isbn_search (GoogleBooksAPI 1 False) http_200_braces parse_nonempty
            ''9780306406157'') = Inr (Some ''{}'')"
    using c [where requests_get = http_200_braces and self = "GoogleBooksAPI 1 False"]
    by (simp add: lookup_contract_def http_200_braces_def parse_nonempty_def)
  moreover
  have "fst (OpenLibraryAPI_isbn_search (OpenLibraryAPI 1 False) http_200_empty parse_nonempty
            ''9780306406157'') = Inl MalformedBody"
    using c [where requests_get = http_200_empty and self = "OpenLibraryAPI 1 False"]
    by (simp add: lookup_contract_def http_200_empty_def parse_nonempty_def)
  moreover
  have "snd (OpenLibraryAPI_isbn_search (OpenLibraryAPI 1 False) http_404 parse_nonempty ''9780306406157'')
       = [\<lparr>url = ''https://openlibrary.org/isbn/9780306406157.json'', params = [],
           request_timeout = 1\<rparr>]"
    using c [where requests_get = http_404 and self = "OpenLibraryAPI 1 False"]
    by (simp add: OpenLibraryAPI_request_def OpenLibraryAPI_def)
  ultimately show ?thesis by blast
qed

end
